theory Spec2Isabelle
  imports Main "HOL-Library.Sublist"
begin

section \<open>pystockfish: the Engine class of src/pystockfish.py\<close>

text \<open>
  The class wraps a chess engine process and talks to it in lines of text over two
  pipes. The model keeps what the methods touch: the text written to the engine's
  input, the lines the engine still has to deliver on its output, the text printed on
  the console, and the three attributes \<open>depth\<close>, \<open>ponder\<close> and \<open>param\<close>.
  Strings are lists of 8-bit characters. Launching the process and pipe failures are
  outside the model.
\<close>

subsection \<open>Python values and strings\<close>

text \<open>
  The values that reach \<open>str(value)\<close> in \<open>setoption\<close>: the strings and integers of the
  option table, the boolean of \<open>setoption('Ponder', False)\<close>, and tuples of integers
  (an expression followed by a comma, as in \<open>randint(a, b),\<close>, is a 1-tuple).
\<close>

datatype pyval = PStr string | PInt int | PBool bool | PTuple "int list"

datatype error = IndexError | ValueError

text \<open>\<open>str.isspace\<close> on the code points below 256.\<close>

definition isspace :: "char \<Rightarrow> bool" where
  "isspace c = (let n = (of_char c :: nat) in
     (9 \<le> n \<and> n \<le> 13) \<or> (28 \<le> n \<and> n \<le> 32) \<or> n = 133 \<or> n = 160)"

text \<open>\<open>s.strip()\<close>: leading and trailing whitespace removed.\<close>

definition strip :: "string \<Rightarrow> string" where
  "strip s = rev (dropWhile isspace (rev (dropWhile isspace s)))"

text \<open>
  \<open>s.split(' ')\<close>: the pieces between single space characters. The result is never
  empty; two adjacent spaces give an empty piece, and a tab does not separate.
\<close>

fun split :: "string \<Rightarrow> string list" where
  "split [] = [[]]"
| "split (c # cs) =
     (if c = CHR '' '' then [] # split cs
      else (case split cs of [] \<Rightarrow> [[c]] | w # ws \<Rightarrow> (c # w) # ws))"

text \<open>\<open>xs[i]\<close> for an index \<open>i \<ge> 0\<close>: out of range raises \<open>IndexError\<close>.\<close>

definition getitem :: "'a list \<Rightarrow> nat \<Rightarrow> error + 'a" where
  "getitem xs i = (if i < length xs then Inr (xs ! i) else Inl IndexError)"

text \<open>\<open>s.find(sub)\<close>: the lowest index where \<open>sub\<close> occurs in \<open>s\<close>, or \<open>-1\<close>.\<close>

fun find_str :: "string \<Rightarrow> string \<Rightarrow> int" where
  "find_str [] sub = (if sub = [] then 0 else - 1)"
| "find_str (c # cs) sub =
     (if prefix sub (c # cs) then 0
      else (let r = find_str cs sub in if r < 0 then - 1 else r + 1))"

text \<open>\<open>str(n)\<close> for an integer: decimal digits, with a minus sign below zero.\<close>

fun digits :: "nat \<Rightarrow> string" where
  "digits n = (if n < 10 then [char_of (48 + n)]
               else digits (n div 10) @ [char_of (48 + n mod 10)])"

declare digits.simps [simp del]

definition str_int :: "int \<Rightarrow> string" where
  "str_int i = (if i < 0 then CHR ''-'' # digits (nat (- i)) else digits (nat i))"

text \<open>\<open>', '.join(...)\<close> over the decimal forms of a list of integers.\<close>

fun join_ints :: "int list \<Rightarrow> string" where
  "join_ints [] = []"
| "join_ints [i] = str_int i"
| "join_ints (i # j # js) = str_int i @ '', '' @ join_ints (j # js)"

fun str :: "pyval \<Rightarrow> string" where
  "str (PStr s) = s"
| "str (PInt i) = str_int i"
| "str (PBool b) = (if b then ''True'' else ''False'')"
| "str (PTuple [i]) = ''('' @ str_int i @ '',)''"
| "str (PTuple is) = ''('' @ join_ints is @ '')''"

subsection \<open>The object and its pipes\<close>

record engine =
  self_depth :: string
  self_ponder :: bool
  self_param :: "(string \<times> pyval) list"
  stdin :: string
  stdout :: "string list"
  console :: "string list"

text \<open>\<open>put\<close>: write the command and a newline to the engine's input.\<close>

definition put :: "string \<Rightarrow> engine \<Rightarrow> engine" where
  "put command s = s\<lparr>stdin := stdin s @ command @ [CHR 0x0A]\<rparr>"

text \<open>
  \<open>self.stdout.readline()\<close>: the next line of the engine's output; at the end of the
  stream it returns the empty string, again and again.
\<close>

fun readline :: "string list \<Rightarrow> string \<times> string list" where
  "readline [] = ([], [])"
| "readline (l # ls) = (l, ls)"

subsection \<open>isready\<close>

text \<open>
  The \<open>while True\<close> loop of \<open>isready\<close>. It has no exit but the \<open>return\<close>, so it is a
  partial function: \<open>None\<close> is the call that never returns.
\<close>

partial_function (option) isready_loop :: "string list \<Rightarrow> (string \<times> string list) option" where
  "isready_loop out =
     (case readline out of (line, out') \<Rightarrow>
        (let text = strip line in
         if text = ''readyok'' then Some (text, out') else isready_loop out'))"

declare isready_loop.simps [code]

definition isready :: "engine \<Rightarrow> (string \<times> engine) option" where
  "isready s =
     (let s1 = put ''isready'' s in
      case isready_loop (stdout s1) of
        None \<Rightarrow> None
      | Some (text, out') \<Rightarrow> Some (text, s1\<lparr>stdout := out'\<rparr>))"

subsection \<open>setoption\<close>

definition print :: "string \<Rightarrow> engine \<Rightarrow> engine" where
  "print msg s = s\<lparr>console := console s @ [msg]\<rparr>"

definition setoption :: "string \<Rightarrow> pyval \<Rightarrow> engine \<Rightarrow> engine option" where
  "setoption optionname v s =
     (case isready (put (''setoption name '' @ optionname @ '' value '' @ str v) s) of
        None \<Rightarrow> None
      | Some (out, s') \<Rightarrow>
          Some (if find_str out ''No such'' \<ge> 0
                then print (''stockfish was unable to set option '' @ optionname) s'
                else s'))"

subsection \<open>bestmove\<close>

record result =
  move :: string
  ponder :: string
  info :: string

definition go :: "engine \<Rightarrow> engine" where
  "go s = put (''go depth '' @ self_depth s) s"

text \<open>
  The \<open>try\<close> block builds the dictionary from \<open>split_text[1]\<close> and \<open>split_text[3]\<close>, in
  this order; the \<open>except IndexError\<close> handler builds it again from \<open>split_text[1]\<close>
  and \<open>'-'\<close>. An \<open>IndexError\<close> raised inside the handler leaves the method.
\<close>

definition parse_bestmove :: "string list \<Rightarrow> string \<Rightarrow> error + result" where
  "parse_bestmove split_text last_line =
     (case (case getitem split_text 1 of
              Inl e \<Rightarrow> Inl e
            | Inr m \<Rightarrow> (case getitem split_text 3 of
                          Inl e \<Rightarrow> Inl e
                        | Inr p \<Rightarrow> Inr \<lparr>move = m, ponder = p, info = last_line\<rparr>)) of
        Inr r \<Rightarrow> Inr r
      | Inl IndexError \<Rightarrow>
          (case getitem split_text 1 of
             Inl e \<Rightarrow> Inl e
           | Inr m \<Rightarrow> Inr \<lparr>move = m, ponder = ''-'', info = last_line\<rparr>)
      | Inl e \<Rightarrow> Inl e)"

text \<open>
  The \<open>while True\<close> loop of \<open>bestmove\<close>, with \<open>last_line\<close> as its second argument.
  \<open>split_text[0]\<close> is the head of a list that is never empty.
\<close>

partial_function (option) bestmove_loop ::
  "string list \<Rightarrow> string \<Rightarrow> ((error + result) \<times> string list) option" where
  "bestmove_loop out last_line =
     (case readline out of (line, out') \<Rightarrow>
        (let text = strip line; split_text = split text in
         if hd split_text = ''bestmove''
         then Some (parse_bestmove split_text last_line, out')
         else bestmove_loop out' text))"

declare bestmove_loop.simps [code]

definition bestmove :: "engine \<Rightarrow> ((error + result) \<times> engine) option" where
  "bestmove s =
     (let s1 = go s in
      case bestmove_loop (stdout s1) [] of
        None \<Rightarrow> None
      | Some (r, out') \<Rightarrow> Some (r, s1\<lparr>stdout := out'\<rparr>))"

subsection \<open>Dictionaries and the constructor\<close>

text \<open>
  A dictionary is a list of pairs with distinct keys, in insertion order (the order in
  which \<open>items()\<close> yields them). \<open>d[k] = v\<close> replaces the value of a key that is
  present, where it stands, and appends a key that is new; \<open>d.update(e)\<close> does so for
  every item of \<open>e\<close>.
\<close>

fun setitem :: "'k \<Rightarrow> 'v \<Rightarrow> ('k \<times> 'v) list \<Rightarrow> ('k \<times> 'v) list" where
  "setitem k v [] = [(k, v)]"
| "setitem k v (p # ps) = (if fst p = k then (k, v) # ps else p # setitem k v ps)"

definition update :: "('k \<times> 'v) list \<Rightarrow> ('k \<times> 'v) list \<Rightarrow> ('k \<times> 'v) list" where
  "update d e = fold (\<lambda>(k, v). setitem k v) e d"

definition base_param :: "(string \<times> pyval) list" where
  "base_param =
     [(''Write Debug Log'', PStr ''false''),
      (''Contempt Factor'', PInt 0),
      (''Contempt'', PInt 0),
      (''Min Split Depth'', PInt 0),
      (''Threads'', PInt 4),
      (''Hash'', PInt 128),
      (''MultiPV'', PInt 1),
      (''Skill Level'', PInt 20),
      (''Move Overhead'', PInt 30),
      (''Minimum Thinking Time'', PInt 20),
      (''Slow Mover'', PInt 80),
      (''UCI_Chess960'', PStr ''false'')]"

text \<open>
  \<open>randint(a, b)\<close>: an integer of \<open>[a, b]\<close>, or \<open>ValueError\<close> when the range is empty.
  The third argument is the random source: every integer of the range is the result
  for some value of it.
\<close>

definition randint :: "int \<Rightarrow> int \<Rightarrow> int \<Rightarrow> error + int" where
  "randint a b r = (if a \<le> b then Inr (a + r mod (b - a + 1)) else Inl ValueError)"

text \<open>
  The option table of the constructor: the literal table, the two assignments under
  \<open>if rand\<close> (each right-hand side ends in a comma, so it is a 1-tuple), then
  \<open>base_param.update(param)\<close>. \<open>r1\<close> and \<open>r2\<close> feed the two calls of \<open>randint\<close>.
\<close>

definition make_param ::
  "(string \<times> pyval) list \<Rightarrow> bool \<Rightarrow> int \<Rightarrow> int \<Rightarrow> int \<Rightarrow> int \<Rightarrow> error + (string \<times> pyval) list" where
  "make_param param rand rand_min rand_max r1 r2 =
     (if rand then
        (case randint rand_min rand_max r1 of
           Inl e \<Rightarrow> Inl e
         | Inr c \<Rightarrow>
            (case randint rand_min rand_max r2 of
               Inl e \<Rightarrow> Inl e
             | Inr cf \<Rightarrow>
                 Inr (update (setitem ''Contempt Factor'' (PTuple [cf])
                               (setitem ''Contempt'' (PTuple [c]) base_param)) param)))
      else Inr (update base_param param))"

text \<open>The \<open>for name, value in list(base_param.items())\<close> loop.\<close>

fun setoptions :: "(string \<times> pyval) list \<Rightarrow> engine \<Rightarrow> engine option" where
  "setoptions [] s = Some s"
| "setoptions ((name, v) # items) s =
     (case setoption name v s of None \<Rightarrow> None | Some s' \<Rightarrow> setoptions items s')"

text \<open>
  \<open>Engine.__init__\<close>, on the lines \<open>out\<close> that the started process will write.
  \<open>None\<close>: the constructor never returns; \<open>Some (Inl e)\<close>: it raises \<open>e\<close>.
\<close>

definition init ::
  "int \<Rightarrow> bool \<Rightarrow> (string \<times> pyval) list \<Rightarrow> bool \<Rightarrow> int \<Rightarrow> int \<Rightarrow> int \<Rightarrow> int \<Rightarrow> string list
     \<Rightarrow> (error + engine) option" where
  "init depth ponder_flag param rand rand_min rand_max r1 r2 out =
     (let s0 = \<lparr>self_depth = str (PInt depth), self_ponder = ponder_flag, self_param = [],
                stdin = [], stdout = out, console = []\<rparr>;
          s1 = put ''uci'' s0
      in case (if \<not> ponder_flag then setoption ''Ponder'' (PBool False) s1 else Some s1) of
           None \<Rightarrow> None
         | Some s2 \<Rightarrow>
            (case make_param param rand rand_min rand_max r1 r2 of
               Inl e \<Rightarrow> Some (Inl e)
             | Inr base \<Rightarrow>
                (case setoptions base (s2\<lparr>self_param := base\<rparr>) of
                   None \<Rightarrow> None
                 | Some s3 \<Rightarrow> Some (Inr s3))))"

subsection \<open>The tokens of the specification\<close>

text \<open>
  The specification counts the tokens of a line as its whitespace-separated tokens:
  the maximal runs of characters that are not whitespace, as \<open>line.split()\<close> without
  an argument gives them. This is not what \<open>bestmove\<close> computes (it calls
  \<open>split(' ')\<close> on the stripped line); the statements about tokens compare the two.
\<close>

function whitespace_tokens :: "string \<Rightarrow> string list" where
  "whitespace_tokens s =
     (case dropWhile isspace s of
        [] \<Rightarrow> []
      | c # cs \<Rightarrow> (c # takeWhile (\<lambda>d. \<not> isspace d) cs)
                  # whitespace_tokens (dropWhile (\<lambda>d. \<not> isspace d) cs))"
  by pat_completeness auto
termination
proof (relation "measure length")
  show "wf (measure length)" by simp
next
  fix s :: string and c cs
  assume "dropWhile isspace s = c # cs"
  then have "length (c # cs) \<le> length s"
    by (metis length_dropWhile_le)
  moreover have "length (dropWhile (\<lambda>d. \<not> isspace d) cs) \<le> length cs"
    by (rule length_dropWhile_le)
  ultimately show "(dropWhile (\<lambda>d. \<not> isspace d) cs, s) \<in> measure length"
    by simp
qed

declare whitespace_tokens.simps [simp del]

section \<open>Verification\<close>

subsection \<open>The two read loops\<close>


lemma strip_Nil: "strip [] = []" by (simp add: strip_def)

lemma isready_loop_Cons:
  "isready_loop (l # ls) = (if strip l = ''readyok'' then Some (''readyok'', ls) else isready_loop ls)"
  by (subst isready_loop.simps) (simp add: Let_def)

lemma isready_loop_SomeD:
  "isready_loop out = Some y \<Longrightarrow> \<exists>l\<in>set out. strip l = ''readyok''"
proof (erule isready_loop.raw_induct [rotated])
  fix f :: "string list \<Rightarrow> (string \<times> string list) option" and out y
  assume IH: "\<And>x y. f x = Some y \<Longrightarrow> \<exists>l\<in>set x. strip l = ''readyok''"
  assume step: "(case readline out of (line, out') \<Rightarrow>
        (let text = strip line in
         if text = ''readyok'' then Some (text, out') else f out')) = Some y"
  show "\<exists>l\<in>set out. strip l = ''readyok''"
  proof (cases out)
    case Nil
    with step have "f [] = Some y" by (simp add: strip_Nil)
    from IH [OF this] show ?thesis by simp
  next
    case (Cons l ls)
    show ?thesis
    proof (cases "strip l = ''readyok''")
      case True
      then show ?thesis using Cons by auto
    next
      case False
      with step Cons have "f ls = Some y" by (simp add: Let_def)
      from IH [OF this] show ?thesis using Cons by auto
    qed
  qed
qed

lemma isready_loop_Nil: "isready_loop [] = None"
  using isready_loop_SomeD [of "[]"] by (cases "isready_loop []") auto

lemma isready_loop_eq:
  "isready_loop out =
     (case dropWhile (\<lambda>l. strip l \<noteq> ''readyok'') out of
        [] \<Rightarrow> None
      | l # rest \<Rightarrow> Some (''readyok'', rest))"
  by (induction out) (simp_all add: isready_loop_Nil isready_loop_Cons)

lemma bestmove_loop_Cons:
  "bestmove_loop (l # ls) last_line =
     (if hd (split (strip l)) = ''bestmove''
      then Some (parse_bestmove (split (strip l)) last_line, ls)
      else bestmove_loop ls (strip l))"
  by (subst bestmove_loop.simps) (simp add: Let_def)

lemma bestmove_loop_SomeD:
  "bestmove_loop out last_line = Some y \<Longrightarrow> \<exists>l\<in>set out. hd (split (strip l)) = ''bestmove''"
proof (erule bestmove_loop.raw_induct [rotated])
  fix f :: "string list \<Rightarrow> string \<Rightarrow> ((error + result) \<times> string list) option"
    and out last_line y
  assume IH: "\<And>x b y. f x b = Some y \<Longrightarrow> \<exists>l\<in>set x. hd (split (strip l)) = ''bestmove''"
  assume step: "(case readline out of (line, out') \<Rightarrow>
        (let text = strip line; split_text = split text in
         if hd split_text = ''bestmove''
         then Some (parse_bestmove split_text last_line, out')
         else f out' text)) = Some y"
  show "\<exists>l\<in>set out. hd (split (strip l)) = ''bestmove''"
  proof (cases out)
    case Nil
    with step have "f [] [] = Some y" by (simp add: strip_Nil)
    from IH [OF this] show ?thesis by simp
  next
    case (Cons l ls)
    show ?thesis
    proof (cases "hd (split (strip l)) = ''bestmove''")
      case True
      then show ?thesis using Cons by auto
    next
      case False
      with step Cons have "f ls (strip l) = Some y" by (simp add: Let_def)
      from IH [OF this] show ?thesis using Cons by auto
    qed
  qed
qed

lemma bestmove_loop_Nil: "bestmove_loop [] last_line = None"
  using bestmove_loop_SomeD [of "[]" last_line] by (cases "bestmove_loop [] last_line") auto

lemma bestmove_loop_append:
  "\<forall>x\<in>set pre. hd (split (strip x)) \<noteq> ''bestmove'' \<Longrightarrow>
   bestmove_loop (pre @ out) last_line =
   bestmove_loop out (if pre = [] then last_line else strip (last pre))"
  by (induction pre arbitrary: last_line) (simp_all add: bestmove_loop_Cons)

subsection \<open>isready\<close>

lemma isready_eq:
  "isready s =
     (case dropWhile (\<lambda>l. strip l \<noteq> ''readyok'') (stdout s) of
        [] \<Rightarrow> None
      | l # rest \<Rightarrow>
          Some (''readyok'', s\<lparr>stdin := stdin s @ ''isready\<newline>'', stdout := rest\<rparr>))"
  by (cases "dropWhile (\<lambda>l. strip l \<noteq> ''readyok'') (stdout s)")
     (simp_all add: isready_def put_def isready_loop_eq Let_def del: dropWhile_eq_Nil_conv)

text \<open>
  C5. Whenever \<open>isready\<close> returns, the string it returns is exactly \<open>readyok\<close>.
\<close>

theorem isready_returns_readyok: "isready s = Some r \<Longrightarrow> fst r = ''readyok''"
  by (cases "dropWhile (\<lambda>l. strip l \<noteq> ''readyok'') (stdout s)")
     (auto simp add: isready_eq simp del: dropWhile_eq_Nil_conv)

theorem isready_returns_readyok_witness:
  "isready \<lparr>self_depth = ''2'', self_ponder = False, self_param = [], stdin = ''uci\<newline>'',
            stdout = [''Stockfish 120212\<newline>'', ''  readyok\<newline>''], console = []\<rparr>
   = Some (''readyok'', \<lparr>self_depth = ''2'', self_ponder = False, self_param = [],
            stdin = ''uci\<newline>isready\<newline>'', stdout = [], console = []\<rparr>)
   \<and> fst (''readyok'', \<lparr>self_depth = ''2'', self_ponder = False, self_param = [],
            stdin = ''uci\<newline>isready\<newline>'', stdout = [], console = []\<rparr>) = ''readyok''"
proof -
  have h: "isready \<lparr>self_depth = ''2'', self_ponder = False, self_param = [], stdin = ''uci\<newline>'',
            stdout = [''Stockfish 120212\<newline>'', ''  readyok\<newline>''], console = []\<rparr>
   = Some (''readyok'', \<lparr>self_depth = ''2'', self_ponder = False, self_param = [],
            stdin = ''uci\<newline>isready\<newline>'', stdout = [], console = []\<rparr>)"
    by (simp add: isready_def put_def isready_loop_Cons strip_def isspace_def)
  from h isready_returns_readyok [OF h] show ?thesis by simp
qed

text \<open>
  C8. \<open>isready\<close> returns if and only if one of the lines still to come on the engine's
  output is \<open>readyok\<close> once stripped. With no such line the call never returns: the
  loop reads on past the end of the stream. When it returns, every line up to and
  including the first such line has been consumed and none of them is kept.
\<close>

theorem isready_terminates_iff:
  "((\<exists>r. isready s = Some r) \<longleftrightarrow> (\<exists>l\<in>set (stdout s). strip l = ''readyok''))
   \<and> ((\<forall>l\<in>set (stdout s). strip l \<noteq> ''readyok'') \<longrightarrow> isready s = None)
   \<and> (\<forall>r. isready s = Some r \<longrightarrow>
         stdout (snd r) = tl (dropWhile (\<lambda>l. strip l \<noteq> ''readyok'') (stdout s)))"
proof -
  have a: "dropWhile (\<lambda>l. strip l \<noteq> ''readyok'') (stdout s) = [] \<longleftrightarrow>
        (\<forall>l\<in>set (stdout s). strip l \<noteq> ''readyok'')"
    by (simp add: dropWhile_eq_Nil_conv)
  show ?thesis
  proof (cases "dropWhile (\<lambda>l. strip l \<noteq> ''readyok'') (stdout s)")
    case Nil
    moreover from Nil a have "\<forall>l\<in>set (stdout s). strip l \<noteq> ''readyok''" by simp
    ultimately show ?thesis by (simp add: isready_eq del: dropWhile_eq_Nil_conv)
  next
    case (Cons l rest)
    with a have "\<exists>l\<in>set (stdout s). strip l = ''readyok''" by auto
    with Cons show ?thesis by (simp add: isready_eq)
  qed
qed

theorem isready_terminates_iff_witness:
  "(\<exists>l\<in>set (stdout \<lparr>self_depth = ''2'', self_ponder = False, self_param = [], stdin = [],
       stdout = [''id name Stockfish\<newline>'', ''readyok\<newline>'', ''info depth 1\<newline>''],
       console = []\<rparr>). strip l = ''readyok'')
   \<and> (\<exists>r. isready \<lparr>self_depth = ''2'', self_ponder = False, self_param = [], stdin = [],
       stdout = [''id name Stockfish\<newline>'', ''readyok\<newline>'', ''info depth 1\<newline>''],
       console = []\<rparr> = Some r \<and> stdout (snd r) = [''info depth 1\<newline>''])
   \<and> isready \<lparr>self_depth = ''2'', self_ponder = False, self_param = [], stdin = [],
       stdout = [''id name Stockfish\<newline>'', ''readyok now\<newline>''],
       console = []\<rparr> = None"
proof -
  have yes: "\<exists>l\<in>set (stdout \<lparr>self_depth = ''2'', self_ponder = False, self_param = [],
       stdin = [],
       stdout = [''id name Stockfish\<newline>'', ''readyok\<newline>'', ''info depth 1\<newline>''],
       console = []\<rparr>). strip l = ''readyok''"
    by (simp add: strip_def isspace_def)
  have no: "\<forall>l\<in>set (stdout \<lparr>self_depth = ''2'', self_ponder = False, self_param = [],
       stdin = [],
       stdout = [''id name Stockfish\<newline>'', ''readyok now\<newline>''],
       console = []\<rparr>). strip l \<noteq> ''readyok''"
    by (simp add: strip_def isspace_def)
  have rest: "tl (dropWhile (\<lambda>l. strip l \<noteq> ''readyok'')
       [''id name Stockfish\<newline>'', ''readyok\<newline>'', ''info depth 1\<newline>''])
       = [''info depth 1\<newline>'']"
    by (simp add: strip_def isspace_def)
  from yes no rest
    isready_terminates_iff [of "\<lparr>self_depth = ''2'', self_ponder = False, self_param = [],
       stdin = [],
       stdout = [''id name Stockfish\<newline>'', ''readyok\<newline>'', ''info depth 1\<newline>''],
       console = []\<rparr>"]
    isready_terminates_iff [of "\<lparr>self_depth = ''2'', self_ponder = False, self_param = [],
       stdin = [],
       stdout = [''id name Stockfish\<newline>'', ''readyok now\<newline>''],
       console = []\<rparr>"]
  show ?thesis by (simp del: dropWhile.simps) blast
qed

subsection \<open>bestmove\<close>

lemma parse_bestmove_ponder:
  "4 \<le> length ts \<Longrightarrow>
   parse_bestmove ts ll = Inr \<lparr>move = ts ! 1, ponder = ts ! 3, info = ll\<rparr>"
  by (simp add: parse_bestmove_def getitem_def)

lemma parse_bestmove_no_ponder:
  "2 \<le> length ts \<Longrightarrow> length ts < 4 \<Longrightarrow>
   parse_bestmove ts ll = Inr \<lparr>move = ts ! 1, ponder = ''-'', info = ll\<rparr>"
  by (simp add: parse_bestmove_def getitem_def)

lemma parse_bestmove_no_move:
  "length ts < 2 \<Longrightarrow> parse_bestmove ts ll = Inl IndexError"
  by (simp add: parse_bestmove_def getitem_def)

text \<open>
  The call reads up to the first line whose first piece is \<open>bestmove\<close> and hands its
  pieces to the parser, with the stripped line before it (or the empty string).
\<close>

lemma bestmove_first:
  assumes "stdout s = pre @ l # rest"
    and "\<forall>x\<in>set pre. hd (split (strip x)) \<noteq> ''bestmove''"
    and "hd (split (strip l)) = ''bestmove''"
  shows "bestmove s =
     Some (parse_bestmove (split (strip l)) (if pre = [] then [] else strip (last pre)),
           s\<lparr>stdin := stdin s @ ''go depth '' @ self_depth s @ ''\<newline>'', stdout := rest\<rparr>)"
proof -
  have "bestmove_loop (pre @ l # rest) [] =
        Some (parse_bestmove (split (strip l)) (if pre = [] then [] else strip (last pre)), rest)"
    using assms(2,3) by (simp add: bestmove_loop_append bestmove_loop_Cons)
  with assms(1) show ?thesis
    by (simp add: bestmove_def go_def put_def Let_def)
qed

text \<open>
  The first piece of \<open>split(' ')\<close> on the stripped line, and the first whitespace
  token of the line: when the first is \<open>bestmove\<close>, so is the second.
\<close>

lemma split_not_Nil: "split s \<noteq> []"
  by (induction s) (auto split: list.splits)

lemma hd_split: "hd (split s) = takeWhile (\<lambda>c. c \<noteq> CHR '' '') s"
proof (induction s)
  case Nil
  show ?case by simp
next
  case (Cons c cs)
  then show ?case using split_not_Nil [of cs] by (cases "split cs") auto
qed

lemma take1_tokens:
  "take 1 (whitespace_tokens s) =
     (case dropWhile isspace s of
        [] \<Rightarrow> []
      | c # cs \<Rightarrow> [c # takeWhile (\<lambda>d. \<not> isspace d) cs])"
  by (subst whitespace_tokens.simps) (simp del: dropWhile_eq_Nil_conv split: list.split)

lemma strip_decomp:
  "\<exists>t. dropWhile isspace s = strip s @ t \<and> (\<forall>c\<in>set t. isspace c)"
proof -
  let ?x = "dropWhile isspace s"
  have "rev ?x = takeWhile isspace (rev ?x) @ dropWhile isspace (rev ?x)" by simp
  then have "?x = rev (dropWhile isspace (rev ?x)) @ rev (takeWhile isspace (rev ?x))"
    by (metis rev_append rev_rev_ident)
  moreover have "\<forall>c\<in>set (rev (takeWhile isspace (rev ?x))). isspace c"
    by (auto dest: set_takeWhileD)
  ultimately show ?thesis unfolding strip_def by blast
qed

lemma bestmove_first_token:
  assumes "hd (split (strip x)) = ''bestmove''"
  shows "take 1 (whitespace_tokens x) = [''bestmove'']"
proof -
  let ?P = "\<lambda>c. c \<noteq> CHR '' ''"
  from assms have tw: "takeWhile ?P (strip x) = ''bestmove''" by (simp add: hd_split)
  define r where "r = dropWhile ?P (strip x)"
  have sx: "strip x = ''bestmove'' @ r"
    using tw takeWhile_dropWhile_id [of ?P "strip x"] by (simp add: r_def)
  have r: "r = [] \<or> isspace (hd r)"
  proof (cases "r = []")
    case True then show ?thesis by simp
  next
    case False
    then have "\<not> ?P (hd r)" unfolding r_def by (rule hd_dropWhile)
    then show ?thesis by (simp add: isspace_def)
  qed
  obtain t where t: "dropWhile isspace x = strip x @ t" and ts: "\<forall>c\<in>set t. isspace c"
    using strip_decomp by blast
  define u where "u = r @ t"
  have u: "takeWhile (\<lambda>d. \<not> isspace d) u = []"
  proof (cases u)
    case Nil then show ?thesis by simp
  next
    case (Cons a as)
    have "isspace a"
    proof (cases "r = []")
      case True
      with Cons ts show ?thesis by (auto simp: u_def)
    next
      case False
      with r Cons show ?thesis by (cases r) (auto simp: u_def)
    qed
    with Cons show ?thesis by simp
  qed
  define w where "w = ''estmove''"
  have w: "\<And>c. c \<in> set w \<Longrightarrow> \<not> isspace c"
    by (auto simp: w_def isspace_def)
  have dx: "dropWhile isspace x = CHR ''b'' # (w @ u)"
    using t sx by (simp add: u_def w_def)
  have e: "takeWhile (\<lambda>d. \<not> isspace d) (w @ u) = w"
    using w u by (simp add: takeWhile_append2)
  have "take 1 (whitespace_tokens x) = [CHR ''b'' # w]"
    by (subst take1_tokens) (simp add: dx e)
  then show ?thesis by (simp add: w_def)
qed

text \<open>
  On a line whose tokens are separated by single spaces the pieces of \<open>split(' ')\<close>
  are the tokens. If that line is the first whose first token is \<open>bestmove\<close>, the call
  stops at it and parses its tokens.
\<close>

lemma bestmove_first_tokens:
  assumes "stdout s = pre @ l # rest"
    and "\<forall>x\<in>set pre. take 1 (whitespace_tokens x) \<noteq> [''bestmove'']"
    and "take 1 (whitespace_tokens l) = [''bestmove'']"
    and "split (strip l) = whitespace_tokens l"
  shows "bestmove s =
     Some (parse_bestmove (whitespace_tokens l) (if pre = [] then [] else strip (last pre)),
           s\<lparr>stdin := stdin s @ ''go depth '' @ self_depth s @ ''\<newline>'', stdout := rest\<rparr>)"
proof -
  from assms(2) have pre: "\<forall>x\<in>set pre. hd (split (strip x)) \<noteq> ''bestmove''"
    using bestmove_first_token by blast
  from assms(3) have "hd (whitespace_tokens l) = ''bestmove''"
    by (cases "whitespace_tokens l") simp_all
  with assms(4) have "hd (split (strip l)) = ''bestmove''" by simp
  from bestmove_first [OF assms(1) pre this] assms(4) show ?thesis by simp
qed

text \<open>
  C1, as amended. If the engine's output has a line whose first whitespace-separated
  token is \<open>bestmove\<close>, and the first such line has at least two tokens, separated
  from one another by single space characters, then \<open>bestmove\<close> returns a result: its
  move is token 1 of that line, its ponder is token 3 when the line has at least four
  tokens and \<open>'-'\<close> otherwise, and its info is the stripped line read just before it
  (the empty string when it is the first line read). The lines after it stay on the
  stream.
\<close>

theorem bestmove_result:
  assumes "stdout s = pre @ l # rest"
    and "\<forall>x\<in>set pre. take 1 (whitespace_tokens x) \<noteq> [''bestmove'']"
    and "take 1 (whitespace_tokens l) = [''bestmove'']"
    and "split (strip l) = whitespace_tokens l"
    and "2 \<le> length (whitespace_tokens l)"
  shows "bestmove s =
     Some (Inr \<lparr>move = whitespace_tokens l ! 1,
                 ponder = (if 4 \<le> length (whitespace_tokens l)
                           then whitespace_tokens l ! 3 else ''-''),
                 info = (if pre = [] then [] else strip (last pre))\<rparr>,
           s\<lparr>stdin := stdin s @ ''go depth '' @ self_depth s @ ''\<newline>'', stdout := rest\<rparr>)"
proof (cases "4 \<le> length (whitespace_tokens l)")
  case True
  then show ?thesis
    using bestmove_first_tokens [OF assms(1,2,3,4)] by (simp add: parse_bestmove_ponder)
next
  case False
  with assms(5) show ?thesis
    using bestmove_first_tokens [OF assms(1,2,3,4)] by (simp add: parse_bestmove_no_ponder)
qed

theorem bestmove_result_witness:
  "bestmove \<lparr>self_depth = ''2'', self_ponder = False, self_param = [], stdin = [],
       stdout = [''info depth 2 score cp 12\<newline>'', ''bestmove e2e4 ponder e7e5\<newline>'', ''readyok\<newline>''], console = []\<rparr>
   = Some (Inr \<lparr>move = ''e2e4'', ponder = ''e7e5'', info = ''info depth 2 score cp 12''\<rparr>,
       \<lparr>self_depth = ''2'', self_ponder = False, self_param = [], stdin = ''go depth 2\<newline>'',
       stdout = [''readyok\<newline>''], console = []\<rparr>)"
proof -
  have t: "whitespace_tokens ''bestmove e2e4 ponder e7e5\<newline>''
      = [''bestmove'', ''e2e4'', ''ponder'', ''e7e5'']"
    by code_simp
  have p: "whitespace_tokens ''info depth 2 score cp 12\<newline>''
      = [''info'', ''depth'', ''2'', ''score'', ''cp'', ''12'']"
    by code_simp
  have sp: "split (strip ''bestmove e2e4 ponder e7e5\<newline>'')
      = [''bestmove'', ''e2e4'', ''ponder'', ''e7e5'']"
    by (simp add: strip_def isspace_def)
  show ?thesis
    using bestmove_result [of "\<lparr>self_depth = ''2'', self_ponder = False, self_param = [], stdin = [],
       stdout = [''info depth 2 score cp 12\<newline>'', ''bestmove e2e4 ponder e7e5\<newline>'', ''readyok\<newline>''], console = []\<rparr>"
      "[''info depth 2 score cp 12\<newline>'']" "''bestmove e2e4 ponder e7e5\<newline>''" "[''readyok\<newline>'']"]
    by (simp add: t p sp) (simp add: strip_def isspace_def)
qed

text \<open>
  The claim as it was stated fails in two ways. Where the first \<open>bestmove\<close> line has
  no second token, the call raises instead of returning a result. Where two spaces
  separate \<open>bestmove\<close> from the move, the tokens of the line are \<open>bestmove\<close>, \<open>e2e4\<close>,
  \<open>ponder\<close>, \<open>e7e5\<close>, and the result has the empty string as its move and \<open>ponder\<close>
  as its ponder.
\<close>

theorem bestmove_result_counterexample:
  "take 1 (whitespace_tokens ''bestmove\<newline>'') = [''bestmove'']
   \<and> bestmove \<lparr>self_depth = ''2'', self_ponder = False, self_param = [], stdin = [],
       stdout = [''info depth 2\<newline>'', ''bestmove\<newline>''], console = []\<rparr>
     = Some (Inl IndexError, \<lparr>self_depth = ''2'', self_ponder = False, self_param = [], stdin = ''go depth 2\<newline>'',
       stdout = [], console = []\<rparr>)
   \<and> whitespace_tokens ''bestmove  e2e4 ponder e7e5\<newline>''
     = [''bestmove'', ''e2e4'', ''ponder'', ''e7e5'']
   \<and> bestmove \<lparr>self_depth = ''2'', self_ponder = False, self_param = [], stdin = [],
       stdout = [''info depth 2\<newline>'', ''bestmove  e2e4 ponder e7e5\<newline>''], console = []\<rparr>
     = Some (Inr \<lparr>move = [], ponder = ''ponder'', info = ''info depth 2''\<rparr>,
       \<lparr>self_depth = ''2'', self_ponder = False, self_param = [], stdin = ''go depth 2\<newline>'',
       stdout = [], console = []\<rparr>)"
  by code_simp

text \<open>
  C2, as amended. A \<open>bestmove\<close> line whose tokens are separated by single space
  characters, with a move token but fewer than four tokens, gives a result whose
  ponder is the sentinel \<open>'-'\<close>; nothing is raised.
\<close>

theorem bestmove_missing_ponder:
  assumes "stdout s = pre @ l # rest"
    and "\<forall>x\<in>set pre. take 1 (whitespace_tokens x) \<noteq> [''bestmove'']"
    and "take 1 (whitespace_tokens l) = [''bestmove'']"
    and "split (strip l) = whitespace_tokens l"
    and "2 \<le> length (whitespace_tokens l)"
    and "length (whitespace_tokens l) < 4"
  shows "bestmove s =
     Some (Inr \<lparr>move = whitespace_tokens l ! 1, ponder = ''-'', info = (if pre = [] then [] else strip (last pre))\<rparr>,
           s\<lparr>stdin := stdin s @ ''go depth '' @ self_depth s @ ''\<newline>'', stdout := rest\<rparr>)"
  using bestmove_first_tokens [OF assms(1,2,3,4)] assms(5,6)
  by (simp add: parse_bestmove_no_ponder)

theorem bestmove_missing_ponder_witness:
  "bestmove \<lparr>self_depth = ''2'', self_ponder = False, self_param = [], stdin = [],
       stdout = [''info depth 1 score cp 40\<newline>'', ''bestmove g1f3\<newline>''], console = []\<rparr>
   = Some (Inr \<lparr>move = ''g1f3'', ponder = ''-'', info = ''info depth 1 score cp 40''\<rparr>,
       \<lparr>self_depth = ''2'', self_ponder = False, self_param = [], stdin = ''go depth 2\<newline>'',
       stdout = [], console = []\<rparr>)
   \<and> bestmove \<lparr>self_depth = ''3'', self_ponder = False, self_param = [], stdin = [],
       stdout = [''info depth 3\<newline>'', ''bestmove d2d4 ponder\<newline>''], console = []\<rparr>
   = Some (Inr \<lparr>move = ''d2d4'', ponder = ''-'', info = ''info depth 3''\<rparr>,
       \<lparr>self_depth = ''3'', self_ponder = False, self_param = [], stdin = ''go depth 3\<newline>'',
       stdout = [], console = []\<rparr>)"
proof -
  have t1: "whitespace_tokens ''bestmove g1f3\<newline>'' = [''bestmove'', ''g1f3'']"
    by code_simp
  have p1: "whitespace_tokens ''info depth 1 score cp 40\<newline>''
      = [''info'', ''depth'', ''1'', ''score'', ''cp'', ''40'']"
    by code_simp
  have s1: "split (strip ''bestmove g1f3\<newline>'') = [''bestmove'', ''g1f3'']"
    by (simp add: strip_def isspace_def)
  have t2: "whitespace_tokens ''bestmove d2d4 ponder\<newline>'' = [''bestmove'', ''d2d4'', ''ponder'']"
    by code_simp
  have p2: "whitespace_tokens ''info depth 3\<newline>'' = [''info'', ''depth'', ''3'']"
    by code_simp
  have s2: "split (strip ''bestmove d2d4 ponder\<newline>'') = [''bestmove'', ''d2d4'', ''ponder'']"
    by (simp add: strip_def isspace_def)
  show ?thesis
    using bestmove_missing_ponder [of "\<lparr>self_depth = ''2'', self_ponder = False, self_param = [], stdin = [],
       stdout = [''info depth 1 score cp 40\<newline>'', ''bestmove g1f3\<newline>''], console = []\<rparr>"
        "[''info depth 1 score cp 40\<newline>'']" "''bestmove g1f3\<newline>''" "[]"]
      bestmove_missing_ponder [of "\<lparr>self_depth = ''3'', self_ponder = False, self_param = [], stdin = [],
       stdout = [''info depth 3\<newline>'', ''bestmove d2d4 ponder\<newline>''], console = []\<rparr>"
        "[''info depth 3\<newline>'']" "''bestmove d2d4 ponder\<newline>''" "[]"]
    by (simp add: t1 p1 s1 t2 p2 s2) (simp add: strip_def isspace_def)
qed

text \<open>
  The claim as it was stated fails where more than one space separates the tokens:
  the line below has the two tokens \<open>bestmove\<close> and \<open>e2e4\<close>, and the result has the
  empty string as its move and \<open>e2e4\<close> as its ponder.
\<close>

theorem bestmove_missing_ponder_counterexample:
  "whitespace_tokens ''bestmove   e2e4\<newline>'' = [''bestmove'', ''e2e4'']
   \<and> bestmove \<lparr>self_depth = ''1'', self_ponder = False, self_param = [], stdin = [],
       stdout = [''info depth 1\<newline>'', ''bestmove   e2e4\<newline>''], console = []\<rparr>
     = Some (Inr \<lparr>move = [], ponder = ''e2e4'', info = ''info depth 1''\<rparr>,
       \<lparr>self_depth = ''1'', self_ponder = False, self_param = [], stdin = ''go depth 1\<newline>'',
       stdout = [], console = []\<rparr>)"
  by code_simp

text \<open>
  C9. When the first \<open>bestmove\<close> line consists of the single token \<open>bestmove\<close>, the
  call ends in an \<open>IndexError\<close>: the handler indexes token 1 again.
\<close>

theorem bestmove_no_move_raises:
  assumes "stdout s = pre @ l # rest"
    and "\<forall>x\<in>set pre. hd (split (strip x)) \<noteq> ''bestmove''"
    and "split (strip l) = [''bestmove'']"
  shows "bestmove s = Some (Inl IndexError, s\<lparr>stdin := stdin s @ ''go depth '' @ self_depth s @ ''\<newline>'', stdout := rest\<rparr>)"
  using bestmove_first [OF assms(1,2)] assms(3) by (simp add: parse_bestmove_no_move)

theorem bestmove_no_move_raises_witness:
  "bestmove \<lparr>self_depth = ''5'', self_ponder = False, self_param = [], stdin = [],
       stdout = [''info string hello\<newline>'', ''  bestmove  \<newline>'', ''bestmove e2e4\<newline>''], console = []\<rparr>
   = Some (Inl IndexError, \<lparr>self_depth = ''5'', self_ponder = False, self_param = [], stdin = ''go depth 5\<newline>'',
       stdout = [''bestmove e2e4\<newline>''], console = []\<rparr>)"
  using bestmove_no_move_raises [of "\<lparr>self_depth = ''5'', self_ponder = False, self_param = [], stdin = [],
       stdout = [''info string hello\<newline>'', ''  bestmove  \<newline>'', ''bestmove e2e4\<newline>''], console = []\<rparr>"
      "[''info string hello\<newline>'']" "''  bestmove  \<newline>''" "[''bestmove e2e4\<newline>'']"]
  by (simp add: strip_def isspace_def)

text \<open>
  C10. When the first line read is the \<open>bestmove\<close> line, a result that is returned has
  the empty string as its info; and one is returned when the line has a move token.
\<close>

theorem bestmove_first_line_info:
  assumes "stdout s = l # rest"
    and "hd (split (strip l)) = ''bestmove''"
  shows "(\<forall>r s'. bestmove s = Some (Inr r, s') \<longrightarrow> info r = [])
     \<and> (2 \<le> length (split (strip l)) \<longrightarrow> (\<exists>r s'. bestmove s = Some (Inr r, s') \<and> info r = []))"
proof -
  have b: "bestmove s = Some (parse_bestmove (split (strip l)) [],
           s\<lparr>stdin := stdin s @ ''go depth '' @ self_depth s @ ''\<newline>'', stdout := rest\<rparr>)"
    using bestmove_first [of s "[]" l rest] assms by simp
  consider "length (split (strip l)) < 2"
    | "2 \<le> length (split (strip l))" "length (split (strip l)) < 4"
    | "4 \<le> length (split (strip l))"
    by linarith
  then show ?thesis
  proof cases
    case 1
    then show ?thesis using b by (simp add: parse_bestmove_no_move)
  next
    case 2
    then show ?thesis using b by (simp add: parse_bestmove_no_ponder)
  next
    case 3
    then show ?thesis using b by (simp add: parse_bestmove_ponder)
  qed
qed

theorem bestmove_first_line_info_witness:
  "bestmove \<lparr>self_depth = ''2'', self_ponder = False, self_param = [], stdin = [],
       stdout = [''bestmove e2e4 ponder e7e5\<newline>'', ''info depth 2\<newline>''], console = []\<rparr>
   = Some (Inr \<lparr>move = ''e2e4'', ponder = ''e7e5'', info = []\<rparr>,
       \<lparr>self_depth = ''2'', self_ponder = False, self_param = [], stdin = ''go depth 2\<newline>'',
       stdout = [''info depth 2\<newline>''], console = []\<rparr>)
   \<and> info \<lparr>move = ''e2e4'', ponder = ''e7e5'', info = []\<rparr> = []"
proof -
  have h: "bestmove \<lparr>self_depth = ''2'', self_ponder = False, self_param = [], stdin = [],
       stdout = [''bestmove e2e4 ponder e7e5\<newline>'', ''info depth 2\<newline>''], console = []\<rparr>
   = Some (Inr \<lparr>move = ''e2e4'', ponder = ''e7e5'', info = []\<rparr>,
       \<lparr>self_depth = ''2'', self_ponder = False, self_param = [], stdin = ''go depth 2\<newline>'',
       stdout = [''info depth 2\<newline>''], console = []\<rparr>)"
    by (simp add: bestmove_def go_def put_def bestmove_loop_Cons strip_def isspace_def
        parse_bestmove_def getitem_def)
  have "stdout \<lparr>self_depth = ''2'', self_ponder = False, self_param = [], stdin = [],
       stdout = [''bestmove e2e4 ponder e7e5\<newline>'', ''info depth 2\<newline>''], console = []\<rparr> = ''bestmove e2e4 ponder e7e5\<newline>'' # [''info depth 2\<newline>'']"
    by simp
  moreover have "hd (split (strip ''bestmove e2e4 ponder e7e5\<newline>'')) = ''bestmove''"
    by (simp add: strip_def isspace_def)
  ultimately have "\<forall>r s'. bestmove \<lparr>self_depth = ''2'', self_ponder = False, self_param = [], stdin = [],
       stdout = [''bestmove e2e4 ponder e7e5\<newline>'', ''info depth 2\<newline>''], console = []\<rparr> = Some (Inr r, s') \<longrightarrow> info r = []"
    using bestmove_first_line_info by blast
  with h show ?thesis by simp
qed

subsection \<open>setoption\<close>

text \<open>
  What \<open>isready\<close> hands to \<open>setoption\<close> is always \<open>readyok\<close>, in which \<open>No such\<close> does not
  occur: the test in \<open>setoption\<close> is never true and nothing is printed.
\<close>

lemma setoption_eq:
  "setoption optionname v s =
     (case dropWhile (\<lambda>l. strip l \<noteq> ''readyok'') (stdout s) of
        [] \<Rightarrow> None
      | l # rest \<Rightarrow>
          Some (s\<lparr>stdin := stdin s @ ''setoption name '' @ optionname @ '' value '' @ str v
                          @ ''\<newline>isready\<newline>'',
                  stdout := rest\<rparr>))"
  by (cases "dropWhile (\<lambda>l. strip l \<noteq> ''readyok'') (stdout s)")
     (simp_all add: setoption_def isready_eq put_def del: dropWhile_eq_Nil_conv)

lemma setoption_keeps:
  "setoption optionname v s = Some s' \<Longrightarrow>
   console s' = console s \<and> self_param s' = self_param s"
  by (cases "dropWhile (\<lambda>l. strip l \<noteq> ''readyok'') (stdout s)")
     (auto simp add: setoption_eq simp del: dropWhile_eq_Nil_conv)

lemma setoptions_keeps:
  "setoptions items s = Some s' \<Longrightarrow>
   console s' = console s \<and> self_param s' = self_param s"
proof (induction items arbitrary: s)
  case Nil
  then show ?case by simp
next
  case (Cons p items)
  obtain name v where p: "p = (name, v)" by (cases p)
  from Cons.prems p obtain s1 where s1: "setoption name v s = Some s1"
    and rest: "setoptions items s1 = Some s'"
    by (auto split: option.splits)
  from Cons.IH [OF rest] setoption_keeps [OF s1] show ?case by simp
qed

text \<open>
  C6. The engine answers \<open>setoption name Foo value 1\<close> with a line that contains
  \<open>No such\<close> and then with \<open>readyok\<close>. The claim asks for a warning in this case;
  \<open>setoption\<close> returns with nothing printed on the console, because the rejecting line
  was discarded inside \<open>isready\<close>.
\<close>

theorem setoption_no_warning:
  "setoption ''Foo'' (PInt 1)
     \<lparr>self_depth = ''2'', self_ponder = False, self_param = [], stdin = ''uci\<newline>'',
       stdout = [''No such option: Foo\<newline>'', ''readyok\<newline>''], console = []\<rparr>
   = Some \<lparr>self_depth = ''2'', self_ponder = False, self_param = [],
       stdin = ''uci\<newline>setoption name Foo value 1\<newline>isready\<newline>'',
       stdout = [], console = []\<rparr>"
  by code_simp

subsection \<open>The constructor\<close>

lemma map_of_setitem: "map_of (setitem k v d) = (map_of d)(k \<mapsto> v)"
  by (induction d) auto

lemma map_of_update_rev: "map_of (update d e) = map_of d ++ map_of (rev e)"
  unfolding update_def
proof (induction e arbitrary: d)
  case Nil
  show ?case by simp
next
  case (Cons p e)
  obtain k v where p: "p = (k, v)" by (cases p)
  have "map_of (fold (\<lambda>(k, v). setitem k v) e (setitem k v d)) =
        map_of (setitem k v d) ++ map_of (rev e)"
    by (rule Cons.IH)
  then show ?case
    by (simp add: p map_of_setitem fun_eq_iff map_add_def split: option.splits)
qed

lemma map_of_update:
  assumes "distinct (map fst e)"
  shows "map_of (update d e) = map_of d ++ map_of e"
proof -
  from assms have "distinct (map fst (rev e))" by (simp add: rev_map [symmetric])
  then have "map_of (rev e) = map_of e"
    using assms by (simp add: map_of_inject_set)
  then show ?thesis by (simp add: map_of_update_rev)
qed

lemma randint_range:
  "randint a b r = Inr x \<Longrightarrow> a \<le> x \<and> x \<le> b"
proof -
  assume h: "randint a b r = Inr x"
  then have ab: "a \<le> b" and x: "x = a + r mod (b - a + 1)"
    by (auto simp: randint_def split: if_splits)
  from ab have pos: "0 < b - a + 1" by simp
  have "0 \<le> r mod (b - a + 1)" using pos by (rule pos_mod_sign)
  moreover have "r mod (b - a + 1) < b - a + 1" using pos by (rule pos_mod_bound)
  ultimately show ?thesis using x by linarith
qed

text \<open>
  With the flag set and no overrides, the two contempt entries of the table are
  1-tuples around an integer of the range, not integers.
\<close>

lemma make_param_rand:
  assumes "make_param [] True rand_min rand_max r1 r2 = Inr t"
  shows "\<exists>c cf. map_of t ''Contempt'' = Some (PTuple [c])
           \<and> map_of t ''Contempt Factor'' = Some (PTuple [cf])
           \<and> rand_min \<le> c \<and> c \<le> rand_max \<and> rand_min \<le> cf \<and> cf \<le> rand_max"
proof -
  from assms obtain c cf where c: "randint rand_min rand_max r1 = Inr c"
    and cf: "randint rand_min rand_max r2 = Inr cf"
    and t: "t = update (setitem ''Contempt Factor'' (PTuple [cf])
                  (setitem ''Contempt'' (PTuple [c]) base_param)) []"
    by (auto simp: make_param_def split: sum.splits)
  from t have "map_of t ''Contempt'' = Some (PTuple [c])"
    and "map_of t ''Contempt Factor'' = Some (PTuple [cf])"
    by (simp_all add: update_def base_param_def)
  with randint_range [OF c] randint_range [OF cf] show ?thesis by blast
qed

lemma make_param_no_rand:
  "make_param param False rand_min rand_max r1 r2 = Inr (update base_param param)"
  by (simp add: make_param_def)

lemma init_self_param:
  assumes "init depth ponder_flag param rand rand_min rand_max r1 r2 out = Some (Inr s)"
  shows "make_param param rand rand_min rand_max r1 r2 = Inr (self_param s)"
proof -
  from assms obtain s2 base where
    base: "make_param param rand rand_min rand_max r1 r2 = Inr base"
    and s: "setoptions base (s2\<lparr>self_param := base\<rparr>) = Some s"
    by (auto simp: init_def Let_def split: option.splits sum.splits if_splits)
  from setoptions_keeps [OF s] base show ?thesis by simp
qed

text \<open>
  C7. Constructed with \<open>ponder=False\<close> (and depth 2, no overrides, no randomization, an
  engine that answers every \<open>isready\<close> with \<open>readyok\<close>), the session has written the
  text below to the engine's input. The claim asks for the line
  \<open>setoption name Ponder value false\<close>; the line written is
  \<open>setoption name Ponder value False\<close>, the \<open>str\<close> of the Python boolean, while the two
  boolean options of the table are written as \<open>false\<close>.
\<close>

theorem init_writes_Ponder_False:
  "map_option (map_sum id stdin)
     (init 2 False [] False (- 10) 10 0 0 (replicate 13 ''readyok\<newline>''))
   = Some (Inr ''uci\<newline>setoption name Ponder value False\<newline>isready\<newline>setoption name Write Debug Log value false\<newline>isready\<newline>setoption name Contempt Factor value 0\<newline>isready\<newline>setoption name Contempt value 0\<newline>isready\<newline>setoption name Min Split Depth value 0\<newline>isready\<newline>setoption name Threads value 4\<newline>isready\<newline>setoption name Hash value 128\<newline>isready\<newline>setoption name MultiPV value 1\<newline>isready\<newline>setoption name Skill Level value 20\<newline>isready\<newline>setoption name Move Overhead value 30\<newline>isready\<newline>setoption name Minimum Thinking Time value 20\<newline>isready\<newline>setoption name Slow Mover value 80\<newline>isready\<newline>setoption name UCI_Chess960 value false\<newline>isready\<newline>'')"
  by code_simp

text \<open>
  C3. Constructed with \<open>rand=True\<close>, the range \<open>[-10, 10]\<close> and no overrides, the table
  holds the 1-tuples \<open>(-7,)\<close> and \<open>(-6,)\<close> under \<open>Contempt\<close> and \<open>Contempt Factor\<close>
  (for the random draws that give \<open>-7\<close> and \<open>-6\<close>). The claim asks for integers of
  the range.
\<close>

theorem init_rand_contempt_tuple:
  "(case init 2 False [] True (- 10) 10 3 25 (replicate 13 ''readyok\<newline>'') of
      Some (Inr s) \<Rightarrow>
        [map_of (self_param s) ''Contempt'', map_of (self_param s) ''Contempt Factor'']
    | _ \<Rightarrow> [])
   = [Some (PTuple [- 7]), Some (PTuple [- 6])]"
  by code_simp

text \<open>
  C4, as amended. When the randomize-contempt flag is unset, for every override
  dictionary the option table stored by the constructor is the default table overlaid
  by the overrides: a key of the overrides has the override's value, any other key has
  its default.
\<close>

theorem init_param_overlay:
  assumes "\<not> rand"
    and "distinct (map fst param)"
    and "init depth ponder_flag param rand rand_min rand_max r1 r2 out = Some (Inr s)"
  shows "self_param s = update base_param param
     \<and> map_of (self_param s) = map_of base_param ++ map_of param"
proof -
  from init_self_param [OF assms(3)] assms(1)
  have "self_param s = update base_param param"
    by (simp add: make_param_no_rand)
  with map_of_update [OF assms(2)] show ?thesis by simp
qed

theorem init_param_overlay_witness:
  "init 2 False [(''Hash'', PInt 16), (''Foo'', PInt 1)] False (- 10) 10 0 0
       (replicate 14 ''readyok\<newline>'')
   = Some (Inr \<lparr>self_depth = ''2'', self_ponder = False,
     self_param =
     [(''Write Debug Log'', PStr ''false''),
      (''Contempt Factor'', PInt 0),
      (''Contempt'', PInt 0),
      (''Min Split Depth'', PInt 0),
      (''Threads'', PInt 4),
      (''Hash'', PInt 16),
      (''MultiPV'', PInt 1),
      (''Skill Level'', PInt 20),
      (''Move Overhead'', PInt 30),
      (''Minimum Thinking Time'', PInt 20),
      (''Slow Mover'', PInt 80),
      (''UCI_Chess960'', PStr ''false''),
      (''Foo'', PInt 1)],
     stdin = ''uci\<newline>setoption name Ponder value False\<newline>isready\<newline>setoption name Write Debug Log value false\<newline>isready\<newline>setoption name Contempt Factor value 0\<newline>isready\<newline>setoption name Contempt value 0\<newline>isready\<newline>setoption name Min Split Depth value 0\<newline>isready\<newline>setoption name Threads value 4\<newline>isready\<newline>setoption name Hash value 16\<newline>isready\<newline>setoption name MultiPV value 1\<newline>isready\<newline>setoption name Skill Level value 20\<newline>isready\<newline>setoption name Move Overhead value 30\<newline>isready\<newline>setoption name Minimum Thinking Time value 20\<newline>isready\<newline>setoption name Slow Mover value 80\<newline>isready\<newline>setoption name UCI_Chess960 value false\<newline>isready\<newline>setoption name Foo value 1\<newline>isready\<newline>'',
     stdout = [], console = []\<rparr>)
   \<and> self_param \<lparr>self_depth = ''2'', self_ponder = False,
     self_param =
     [(''Write Debug Log'', PStr ''false''),
      (''Contempt Factor'', PInt 0),
      (''Contempt'', PInt 0),
      (''Min Split Depth'', PInt 0),
      (''Threads'', PInt 4),
      (''Hash'', PInt 16),
      (''MultiPV'', PInt 1),
      (''Skill Level'', PInt 20),
      (''Move Overhead'', PInt 30),
      (''Minimum Thinking Time'', PInt 20),
      (''Slow Mover'', PInt 80),
      (''UCI_Chess960'', PStr ''false''),
      (''Foo'', PInt 1)],
     stdin = ''uci\<newline>setoption name Ponder value False\<newline>isready\<newline>setoption name Write Debug Log value false\<newline>isready\<newline>setoption name Contempt Factor value 0\<newline>isready\<newline>setoption name Contempt value 0\<newline>isready\<newline>setoption name Min Split Depth value 0\<newline>isready\<newline>setoption name Threads value 4\<newline>isready\<newline>setoption name Hash value 16\<newline>isready\<newline>setoption name MultiPV value 1\<newline>isready\<newline>setoption name Skill Level value 20\<newline>isready\<newline>setoption name Move Overhead value 30\<newline>isready\<newline>setoption name Minimum Thinking Time value 20\<newline>isready\<newline>setoption name Slow Mover value 80\<newline>isready\<newline>setoption name UCI_Chess960 value false\<newline>isready\<newline>setoption name Foo value 1\<newline>isready\<newline>'',
     stdout = [], console = []\<rparr>
     = update base_param [(''Hash'', PInt 16), (''Foo'', PInt 1)]
   \<and> map_of (self_param \<lparr>self_depth = ''2'', self_ponder = False,
     self_param =
     [(''Write Debug Log'', PStr ''false''),
      (''Contempt Factor'', PInt 0),
      (''Contempt'', PInt 0),
      (''Min Split Depth'', PInt 0),
      (''Threads'', PInt 4),
      (''Hash'', PInt 16),
      (''MultiPV'', PInt 1),
      (''Skill Level'', PInt 20),
      (''Move Overhead'', PInt 30),
      (''Minimum Thinking Time'', PInt 20),
      (''Slow Mover'', PInt 80),
      (''UCI_Chess960'', PStr ''false''),
      (''Foo'', PInt 1)],
     stdin = ''uci\<newline>setoption name Ponder value False\<newline>isready\<newline>setoption name Write Debug Log value false\<newline>isready\<newline>setoption name Contempt Factor value 0\<newline>isready\<newline>setoption name Contempt value 0\<newline>isready\<newline>setoption name Min Split Depth value 0\<newline>isready\<newline>setoption name Threads value 4\<newline>isready\<newline>setoption name Hash value 16\<newline>isready\<newline>setoption name MultiPV value 1\<newline>isready\<newline>setoption name Skill Level value 20\<newline>isready\<newline>setoption name Move Overhead value 30\<newline>isready\<newline>setoption name Minimum Thinking Time value 20\<newline>isready\<newline>setoption name Slow Mover value 80\<newline>isready\<newline>setoption name UCI_Chess960 value false\<newline>isready\<newline>setoption name Foo value 1\<newline>isready\<newline>'',
     stdout = [], console = []\<rparr>)
     = map_of base_param ++ map_of [(''Hash'', PInt 16), (''Foo'', PInt 1)]"
proof -
  have h: "init 2 False [(''Hash'', PInt 16), (''Foo'', PInt 1)] False (- 10) 10 0 0
       (replicate 14 ''readyok\<newline>'')
   = Some (Inr \<lparr>self_depth = ''2'', self_ponder = False,
     self_param =
     [(''Write Debug Log'', PStr ''false''),
      (''Contempt Factor'', PInt 0),
      (''Contempt'', PInt 0),
      (''Min Split Depth'', PInt 0),
      (''Threads'', PInt 4),
      (''Hash'', PInt 16),
      (''MultiPV'', PInt 1),
      (''Skill Level'', PInt 20),
      (''Move Overhead'', PInt 30),
      (''Minimum Thinking Time'', PInt 20),
      (''Slow Mover'', PInt 80),
      (''UCI_Chess960'', PStr ''false''),
      (''Foo'', PInt 1)],
     stdin = ''uci\<newline>setoption name Ponder value False\<newline>isready\<newline>setoption name Write Debug Log value false\<newline>isready\<newline>setoption name Contempt Factor value 0\<newline>isready\<newline>setoption name Contempt value 0\<newline>isready\<newline>setoption name Min Split Depth value 0\<newline>isready\<newline>setoption name Threads value 4\<newline>isready\<newline>setoption name Hash value 16\<newline>isready\<newline>setoption name MultiPV value 1\<newline>isready\<newline>setoption name Skill Level value 20\<newline>isready\<newline>setoption name Move Overhead value 30\<newline>isready\<newline>setoption name Minimum Thinking Time value 20\<newline>isready\<newline>setoption name Slow Mover value 80\<newline>isready\<newline>setoption name UCI_Chess960 value false\<newline>isready\<newline>setoption name Foo value 1\<newline>isready\<newline>'',
     stdout = [], console = []\<rparr>)"
    by code_simp
  have d: "distinct (map fst [(''Hash'', PInt 16), (''Foo'', PInt 1)])" by simp
  have f: "\<not> False" by simp
  from h init_param_overlay [OF f d h] show ?thesis by blast
qed

text \<open>
  The claim as it was stated fails when the flag is set: the contempt entries are then
  overwritten before the overrides are applied.
\<close>

theorem init_param_overlay_counterexample:
  "(case init 2 False [(''Hash'', PInt 16)] True (- 10) 10 3 25
           (replicate 13 ''readyok\<newline>'') of
      Some (Inr s) \<Rightarrow> map_of (self_param s) ''Contempt''
    | _ \<Rightarrow> None) = Some (PTuple [- 7])
   \<and> (map_of base_param ++ map_of [(''Hash'', PInt 16)]) ''Contempt'' = Some (PInt 0)"
  by code_simp

end
